theory Spec2Isabelle
  imports Main "HOL-Library.AList"
begin

section \<open>The tagz.lol API (main.py) as HOL functions\<close>

text \<open>
  The module is a FastAPI application over two SQL tables. Its handlers are modelled as
  functions that take the database and return a result together with the database after
  the commit. A handler that raises returns \<open>Inl\<close> of the exception; a handler that
  returns normally returns \<open>Inr\<close> of its value.

  What the module takes from its libraries is made explicit:
  \<^item> \<open>str.lower\<close>, \<open>int\<close> applied to a string, the e-mail validator behind \<open>EmailStr\<close>,
    the secret key read from the process environment and the passlib context are fields of
    the record \<open>env\<close>;
  \<^item> the clock (\<open>datetime.utcnow()\<close>) is an argument \<open>now\<close>, in whole seconds since
    the epoch: this is the resolution at which the token library writes and compares the
    \<open>exp\<close> claim;
  \<^item> the random salt that \<open>pwd_ctx.hash\<close> draws is an argument \<open>salt\<close>;
  \<^item> a signed token is a symbolic value (the key it was signed with and its payload),
    in the manner of the protocol models of HOL/Auth: signatures cannot be forged and
    every string that is not a well-formed signed token is \<open>Garbage\<close>.

  Strings are lists of 8-bit characters.
\<close>

subsection \<open>Exceptions\<close>

text \<open>
  \<open>HTTPException\<close> is the typed error of the API (status code and detail). The others are
  the exceptions that can escape a handler: pydantic's validation errors (of the request
  body, and of a model built with \<open>model_validate\<close>), the three exceptions of the token
  library, Python's \<open>AttributeError\<close>, \<open>TypeError\<close>, \<open>ValueError\<close> and
  \<open>OverflowError\<close>, and passlib's \<open>UnknownHashError\<close> and \<open>PasswordValueError\<close> (which
  stands for its two subclasses as well, \<open>NullPasswordError\<close> and \<open>PasswordSizeError\<close>).
\<close>

datatype py_exn =
    HTTPException int string
  | RequestValidationError
  | ValidationError
  | JWTError
  | ExpiredSignatureError
  | JWTClaimsError
  | AttributeError
  | TypeError
  | ValueError
  | OverflowError
  | UnknownHashError
  | PasswordValueError

text \<open>What \<open>except JWTError\<close> catches: the class and its two subclasses.\<close>

definition is_JWTError :: "py_exn \<Rightarrow> bool" where
  "is_JWTError e = (e = JWTError \<or> e = ExpiredSignatureError \<or> e = JWTClaimsError)"

subsection \<open>Tables (class User, class Link)\<close>

record User =
  id :: int
  username :: string
  email :: string
  password_hash :: string
  bio :: "string option"
  avatar_url :: "string option"
  theme_hex :: "string option"
  created_at :: int

record Link =
  id :: int
  user_id :: int
  title :: string
  url :: string
  icon :: "string option"
  order_index :: int

text \<open>
  The database: the rows of the tables \<open>users\<close> and \<open>links\<close>, in the order of their
  insertion. A query on one column scans its table in this order, so its \<open>.first()\<close> is
  \<open>find\<close>, and the relationship \<open>u.links\<close> is a \<open>filter\<close>.
\<close>

record database =
  users :: "User list"
  links :: "Link list"

text \<open>
  The key of a new row. Both tables declare \<open>id\<close> as an integer primary key and leave
  its value to the store; the default store (SQLite) gives one more than the largest key in
  use, and 1 in an empty table.
\<close>

definition next_id :: "int list \<Rightarrow> int" where
  "next_id ids = fold max ids 0 + 1"

text \<open>
  An \<open>Integer\<close> column of the store holds a signed 64-bit integer. Python's integers are
  unbounded; binding one outside this range to a statement raises \<open>OverflowError\<close>.
\<close>

definition Integer_fits :: "int \<Rightarrow> bool" where
  "Integer_fits n = (- (2 ^ 63) \<le> n \<and> n < 2 ^ 63)"

subsection \<open>Schemas (pydantic models)\<close>

record LinkIn =
  title :: string
  url :: string
  icon :: "string option"
  order_index :: int

record LinkOut = LinkIn +
  id :: int

record UserPublic =
  username :: string
  bio :: "string option"
  avatar_url :: "string option"
  theme_hex :: "string option"
  links :: "LinkOut list"

record SignupIn =
  username :: string
  email :: string
  password :: string

text \<open>
  In \<open>UpdateProfileIn\<close> every field is \<open>Optional\<close> with default \<open>None\<close>: a field left
  out of the request body and a field sent as \<open>null\<close> both arrive as \<open>None\<close>.
\<close>

record UpdateProfileIn =
  bio :: "string option"
  avatar_url :: "string option"
  theme_hex :: "string option"
  links :: "LinkIn list option"

record OAuth2PasswordRequestForm =
  username :: string
  password :: string

subsection \<open>Password hashing (passlib.context.CryptContext)\<close>

text \<open>
  The context is configured with the one scheme bcrypt. Its two operations work in the
  steps below, in this order; what is left to the fields of the record is the parsing of a
  string that has the prefix of the scheme, and bcrypt itself.
  \<^item> \<open>verify\<close> first identifies the scheme of the digest by its prefix, and raises
    \<open>UnknownHashError\<close> when the string has none of the prefixes of bcrypt.
  \<^item> A password of more than 4096 characters is refused (\<open>PasswordSizeError\<close>).
  \<^item> \<open>from_string\<close> parses the digest into its settings with the salt, and its
    checksum; it is \<open>None\<close> where the parse raises \<open>ValueError\<close> (a malformed cost, salt
    or checksum, or no checksum at all).
  \<^item> A password with a NUL character is refused (\<open>NullPasswordError\<close>).
  \<^item> Then the checksum of the password under the settings and salt of the digest is
    computed and compared with the checksum of the digest.
  \<open>hash\<close> refuses the same passwords, and returns the settings and salt followed by the
  checksum.
\<close>

record CryptContext =
  from_string :: "string \<Rightarrow> (string \<times> string) option"
  calc_checksum :: "string \<Rightarrow> string \<Rightarrow> string"

definition ident_values :: "string list" where
  "ident_values = [''$2$'', ''$2a$'', ''$2x$'', ''$2y$'', ''$2b$'']"

definition identify :: "string \<Rightarrow> bool" where
  "identify hash = list_ex (\<lambda>ident. take (length ident) hash = ident) ident_values"

definition MAX_PASSWORD_SIZE :: nat where
  "MAX_PASSWORD_SIZE = 4096"

definition CryptContext_hash :: "CryptContext \<Rightarrow> string \<Rightarrow> string \<Rightarrow> py_exn + string" where
  "CryptContext_hash ctx salt secret =
     (if MAX_PASSWORD_SIZE < length secret then Inl PasswordValueError
      else if CHR 0x00 \<in> set secret then Inl PasswordValueError
      else Inr (salt @ calc_checksum ctx salt secret))"

definition CryptContext_verify :: "CryptContext \<Rightarrow> string \<Rightarrow> string \<Rightarrow> py_exn + bool" where
  "CryptContext_verify ctx secret hash =
     (if \<not> identify hash then Inl UnknownHashError
      else if MAX_PASSWORD_SIZE < length secret then Inl PasswordValueError
      else
        (case from_string ctx hash of
           None \<Rightarrow> Inl ValueError
         | Some (salt, chk) \<Rightarrow>
             if CHR 0x00 \<in> set secret then Inl PasswordValueError
             else Inr (calc_checksum ctx salt secret = chk)))"

subsection \<open>Configuration and library functions\<close>

text \<open>
  \<open>int_of_str\<close> is Python's \<open>int\<close> on a string: the number the string spells, and
  \<open>None\<close> where \<open>int\<close> raises \<open>ValueError\<close>.
\<close>

record env =
  SECRET_KEY :: string
  pwd_ctx :: CryptContext
  lower :: "string \<Rightarrow> string"
  int_of_str :: "string \<Rightarrow> int option"
  EmailStr :: "string \<Rightarrow> string option"

definition ACCESS_TOKEN_MINUTES :: int where
  "ACCESS_TOKEN_MINUTES = 60 * 24 * 14"

subsection \<open>Tokens (jose.jwt)\<close>

text \<open>
  The values of a payload. Numbers with a fraction are not modelled. A payload is a
  dictionary; as a list of pairs it is read with \<open>map_of\<close>.
\<close>

datatype json =
    JNull
  | JBool bool
  | JInt int
  | JStr string
  | JList "json list"
  | JObject "(string \<times> json) list"

type_synonym claims = "(string \<times> json) list"

text \<open>
  A bearer token is either a string that is no signed token at all, or a payload signed
  (HS256) with some key.
\<close>

datatype token = Garbage string | JWS string claims

record TokenOut =
  access_token :: token
  token_type :: string

definition jwt_encode :: "claims \<Rightarrow> string \<Rightarrow> token" where
  "jwt_encode payload key = JWS key payload"

text \<open>
  The library converts a time claim with \<open>int\<close>. \<open>int\<close> raises \<open>TypeError\<close> on
  \<open>None\<close>, a list and a dictionary, and \<open>ValueError\<close> on a string that spells no number;
  the library turns the \<open>ValueError\<close> into \<open>JWTClaimsError\<close> and lets the \<open>TypeError\<close>
  through.
\<close>

definition int_claim :: "env \<Rightarrow> json \<Rightarrow> py_exn + int" where
  "int_claim env v =
     (case v of
        JInt n \<Rightarrow> Inr n
      | JBool b \<Rightarrow> Inr (if b then 1 else 0)
      | JStr s \<Rightarrow> (case int_of_str env s of None \<Rightarrow> Inl JWTClaimsError | Some n \<Rightarrow> Inr n)
      | _ \<Rightarrow> Inl TypeError)"

text \<open>
  The checks of \<open>jwt.decode\<close> on the claims, with the library's default options and no
  audience, issuer, subject or access token given, as \<open>current_user\<close> calls it. No claim
  is required. \<open>iat\<close>, \<open>nbf\<close> and \<open>exp\<close> must convert to integers; \<open>nbf\<close> must not be
  later than the clock and \<open>exp\<close> not earlier. A token with \<open>aud\<close> is refused, since no
  audience is given, and so is one with \<open>at_hash\<close>, since no access token is given.
  \<open>sub\<close> and \<open>jti\<close> must be strings.
\<close>

definition validate_iat :: "env \<Rightarrow> claims \<Rightarrow> py_exn + unit" where
  "validate_iat env payload =
     (case map_of payload ''iat'' of
        None \<Rightarrow> Inr ()
      | Some v \<Rightarrow> (case int_claim env v of Inl e \<Rightarrow> Inl e | Inr n \<Rightarrow> Inr ()))"

definition validate_nbf :: "env \<Rightarrow> int \<Rightarrow> claims \<Rightarrow> py_exn + unit" where
  "validate_nbf env now payload =
     (case map_of payload ''nbf'' of
        None \<Rightarrow> Inr ()
      | Some v \<Rightarrow>
          (case int_claim env v of
             Inl e \<Rightarrow> Inl e
           | Inr n \<Rightarrow> if now < n then Inl JWTClaimsError else Inr ()))"

definition validate_exp :: "env \<Rightarrow> int \<Rightarrow> claims \<Rightarrow> py_exn + unit" where
  "validate_exp env now payload =
     (case map_of payload ''exp'' of
        None \<Rightarrow> Inr ()
      | Some v \<Rightarrow>
          (case int_claim env v of
             Inl e \<Rightarrow> Inl e
           | Inr n \<Rightarrow> if n < now then Inl ExpiredSignatureError else Inr ()))"

definition validate_aud :: "claims \<Rightarrow> py_exn + unit" where
  "validate_aud payload =
     (case map_of payload ''aud'' of None \<Rightarrow> Inr () | Some v \<Rightarrow> Inl JWTClaimsError)"

definition validate_sub :: "claims \<Rightarrow> py_exn + unit" where
  "validate_sub payload =
     (case map_of payload ''sub'' of
        None \<Rightarrow> Inr ()
      | Some (JStr s) \<Rightarrow> Inr ()
      | Some v \<Rightarrow> Inl JWTClaimsError)"

definition validate_jti :: "claims \<Rightarrow> py_exn + unit" where
  "validate_jti payload =
     (case map_of payload ''jti'' of
        None \<Rightarrow> Inr ()
      | Some (JStr s) \<Rightarrow> Inr ()
      | Some v \<Rightarrow> Inl JWTClaimsError)"

definition validate_at_hash :: "claims \<Rightarrow> py_exn + unit" where
  "validate_at_hash payload =
     (case map_of payload ''at_hash'' of None \<Rightarrow> Inr () | Some v \<Rightarrow> Inl JWTClaimsError)"

text \<open>The checks run in a fixed order; the first that raises ends the call.\<close>

fun first_raised :: "(py_exn + unit) list \<Rightarrow> py_exn + unit" where
  "first_raised [] = Inr ()"
| "first_raised (Inl e # rs) = Inl e"
| "first_raised (Inr u # rs) = first_raised rs"

definition validate_claims :: "env \<Rightarrow> int \<Rightarrow> claims \<Rightarrow> py_exn + unit" where
  "validate_claims env now payload =
     first_raised
       [validate_iat env payload, validate_nbf env now payload, validate_exp env now payload,
        validate_aud payload, validate_sub payload, validate_jti payload,
        validate_at_hash payload]"

text \<open>
  \<open>jwt.decode(token, key, algorithms=[ALGORITHM])\<close>: the signature is checked first,
  then the claims. A string that is no signed token, and a signature under another key,
  raise \<open>JWTError\<close>.
\<close>

definition jwt_decode :: "env \<Rightarrow> int \<Rightarrow> token \<Rightarrow> string \<Rightarrow> py_exn + claims" where
  "jwt_decode env now tok key =
     (case tok of
        Garbage s \<Rightarrow> Inl JWTError
      | JWS k payload \<Rightarrow>
          if k \<noteq> key then Inl JWTError
          else
            (case validate_claims env now payload of
               Inl e \<Rightarrow> Inl e
             | Inr u \<Rightarrow> Inr payload))"

subsection \<open>Auth helpers\<close>

definition hash_pw :: "env \<Rightarrow> string \<Rightarrow> string \<Rightarrow> py_exn + string" where
  "hash_pw env salt p = CryptContext_hash (pwd_ctx env) salt p"

definition verify_pw :: "env \<Rightarrow> string \<Rightarrow> string \<Rightarrow> py_exn + bool" where
  "verify_pw env p hashed = CryptContext_verify (pwd_ctx env) p hashed"

text \<open>
  \<open>create_token(data, minutes)\<close>: the dictionary is copied, \<open>exp\<close> is set to the clock
  plus \<open>minutes\<close>, and the result is signed with \<open>SECRET_KEY\<close>. Callers that rely on the
  default pass \<open>ACCESS_TOKEN_MINUTES\<close>.
\<close>

definition create_token :: "env \<Rightarrow> int \<Rightarrow> claims \<Rightarrow> int \<Rightarrow> token" where
  "create_token env now data minutes =
     (let to_encode = AList.update ''exp'' (JInt (now + 60 * minutes)) data
      in jwt_encode to_encode (SECRET_KEY env))"

text \<open>
  \<open>current_user\<close>: the \<open>try\<close> block holds \<open>jwt.decode\<close> and \<open>payload.get("sub")\<close>, and
  its handler catches \<open>JWTError\<close> only; any other exception of \<open>jwt.decode\<close> passes.
  \<open>payload.get\<close> never raises; it gives \<open>None\<close> for a payload without \<open>sub\<close>, and then
  \<open>username.lower()\<close>, outside the \<open>try\<close>, raises \<open>AttributeError\<close>.
\<close>

definition current_user :: "env \<Rightarrow> int \<Rightarrow> database \<Rightarrow> token \<Rightarrow> py_exn + User" where
  "current_user env now db tok =
     (case jwt_decode env now tok (SECRET_KEY env) of
        Inl e \<Rightarrow>
          if is_JWTError e then Inl (HTTPException 401 ''Invalid token'') else Inl e
      | Inr payload \<Rightarrow>
          (case map_of payload ''sub'' of
             Some (JStr sub) \<Rightarrow>
               (case find (\<lambda>u. User.username u = lower env sub) (users db) of
                  None \<Rightarrow> Inl (HTTPException 401 ''User not found'')
                | Some user \<Rightarrow> Inr user)
           | _ \<Rightarrow> Inl AttributeError))"

subsection \<open>Request validation\<close>

text \<open>
  FastAPI builds the body model before it calls the handler, and answers with a
  validation error (422) without calling it when a field constraint fails.
\<close>

definition SignupIn_model_validate :: "env \<Rightarrow> SignupIn \<Rightarrow> py_exn + SignupIn" where
  "SignupIn_model_validate env body =
     (if length (SignupIn.username body) < 3 \<or> 32 < length (SignupIn.username body)
      then Inl RequestValidationError
      else
        (case EmailStr env (SignupIn.email body) of
           None \<Rightarrow> Inl RequestValidationError
         | Some e \<Rightarrow>
             if length (SignupIn.password body) < 6 then Inl RequestValidationError
             else Inr (body\<lparr>SignupIn.email := e\<rparr>)))"

definition LinkIn_valid :: "LinkIn \<Rightarrow> bool" where
  "LinkIn_valid L = (length (LinkIn.title L) \<le> 100)"

definition UpdateProfileIn_valid :: "UpdateProfileIn \<Rightarrow> bool" where
  "UpdateProfileIn_valid payload =
     (case UpdateProfileIn.links payload of
        None \<Rightarrow> True
      | Some Ls \<Rightarrow> list_all LinkIn_valid Ls)"

text \<open>
  \<open>LinkOut.model_validate(l)\<close> reads the attributes of a row (\<open>from_attributes\<close>) and
  checks the constraint on \<open>title\<close> that \<open>LinkOut\<close> inherits from \<open>LinkIn\<close>. The list
  comprehension of the two read handlers stops at the first row that fails.
\<close>

definition from_attributes :: "Link \<Rightarrow> LinkOut" where
  "from_attributes l =
     \<lparr>LinkIn.title = Link.title l, url = Link.url l, icon = Link.icon l,
      order_index = Link.order_index l, LinkOut.id = Link.id l\<rparr>"

definition LinkOut_model_validate :: "Link \<Rightarrow> py_exn + LinkOut" where
  "LinkOut_model_validate l =
     (if 100 < length (Link.title l) then Inl ValidationError
      else Inr (from_attributes l))"

fun validate_all :: "Link list \<Rightarrow> py_exn + LinkOut list" where
  "validate_all [] = Inr []"
| "validate_all (l # ls) =
     (case LinkOut_model_validate l of
        Inl e \<Rightarrow> Inl e
      | Inr out \<Rightarrow>
          (case validate_all ls of
             Inl e \<Rightarrow> Inl e
           | Inr outs \<Rightarrow> Inr (out # outs)))"

subsection \<open>Routes\<close>

text \<open>The relationship \<open>u.links\<close>: the rows of \<open>links\<close> whose \<open>user_id\<close> is the user's key.\<close>

definition user_links :: "database \<Rightarrow> User \<Rightarrow> Link list" where
  "user_links db u = filter (\<lambda>l. Link.user_id l = User.id u) (database.links db)"

text \<open>
  POST /api/signup, the handler. \<open>hash_pw\<close> is called while the row is built, after
  the two queries; what it raises leaves the handler before anything is added.
\<close>

definition signup :: "env \<Rightarrow> int \<Rightarrow> string \<Rightarrow> database \<Rightarrow> SignupIn
    \<Rightarrow> (py_exn + TokenOut) \<times> database" where
  "signup env now salt db data =
     (if find (\<lambda>u. User.username u = lower env (SignupIn.username data)) (users db) \<noteq> None
      then (Inl (HTTPException 400 ''Username already taken''), db)
      else if find (\<lambda>u. User.email u = lower env (SignupIn.email data)) (users db) \<noteq> None
      then (Inl (HTTPException 400 ''Email already registered''), db)
      else
        (case hash_pw env salt (SignupIn.password data) of
           Inl e \<Rightarrow> (Inl e, db)
         | Inr hashed \<Rightarrow>
             (let user = \<lparr>User.id = next_id (map User.id (users db)),
                          username = lower env (SignupIn.username data),
                          email = lower env (SignupIn.email data),
                          password_hash = hashed,
                          bio = Some '''',
                          avatar_url = None,
                          theme_hex = Some ''#00ff88'',
                          created_at = now\<rparr>;
                  db' = db\<lparr>users := users db @ [user]\<rparr>;
                  token = create_token env now [(''sub'', JStr (User.username user))]
                            ACCESS_TOKEN_MINUTES
              in (Inr \<lparr>access_token = token, token_type = ''bearer''\<rparr>, db'))))"

text \<open>POST /api/signup, from the request body: validation, then the handler.\<close>

definition api_signup :: "env \<Rightarrow> int \<Rightarrow> string \<Rightarrow> database \<Rightarrow> SignupIn
    \<Rightarrow> (py_exn + TokenOut) \<times> database" where
  "api_signup env now salt db body =
     (case SignupIn_model_validate env body of
        Inl e \<Rightarrow> (Inl e, db)
      | Inr data \<Rightarrow> signup env now salt db data)"

text \<open>
  The query of \<open>login\<close> filters on a disjunction over the two uniquely indexed columns.
  The store answers it from the index on \<open>username\<close> first and from the index on
  \<open>email\<close> after it, so \<open>.first()\<close> is the row whose username matches when there is
  one, and otherwise the row whose email matches.
\<close>

definition login_first :: "database \<Rightarrow> string \<Rightarrow> User option" where
  "login_first db ident =
     (case find (\<lambda>u. User.username u = ident) (users db) of
        Some u \<Rightarrow> Some u
      | None \<Rightarrow> find (\<lambda>u. User.email u = ident) (users db))"

text \<open>
  POST /api/login. The condition \<open>not user or not verify_pw(...)\<close> calls \<open>verify_pw\<close>
  only when a row was found; an exception of \<open>verify_pw\<close> is not caught.
\<close>

definition login :: "env \<Rightarrow> int \<Rightarrow> database \<Rightarrow> OAuth2PasswordRequestForm
    \<Rightarrow> py_exn + TokenOut" where
  "login env now db form =
     (case login_first db (lower env (OAuth2PasswordRequestForm.username form)) of
        None \<Rightarrow> Inl (HTTPException 401 ''Invalid credentials'')
      | Some user \<Rightarrow>
          (case verify_pw env (OAuth2PasswordRequestForm.password form)
                  (User.password_hash user) of
             Inl e \<Rightarrow> Inl e
           | Inr ok \<Rightarrow>
               if \<not> ok then Inl (HTTPException 401 ''Invalid credentials'')
               else
                 (let token = create_token env now [(''sub'', JStr (User.username user))]
                                ACCESS_TOKEN_MINUTES
                  in Inr \<lparr>access_token = token, token_type = ''bearer''\<rparr>)))"

text \<open>
  GET /api/me. Python's \<open>sorted\<close> is stable, as \<open>sort_key\<close> is: rows with equal keys keep
  their order.
\<close>

definition me :: "database \<Rightarrow> User \<Rightarrow> py_exn + UserPublic" where
  "me db u =
     (case validate_all (sort_key Link.order_index (user_links db u)) of
        Inl e \<Rightarrow> Inl e
      | Inr ls \<Rightarrow>
          Inr \<lparr>UserPublic.username = User.username u,
               bio = User.bio u,
               avatar_url = User.avatar_url u,
               theme_hex = User.theme_hex u,
               links = ls\<rparr>)"

text \<open>
  \<open>L.order_index if L.order_index else i\<close> tests the truth value of an integer: every
  integer but 0 is true.
\<close>

definition assigned_order_index :: "nat \<Rightarrow> LinkIn \<Rightarrow> int" where
  "assigned_order_index i L =
     (if LinkIn.order_index L \<noteq> 0 then LinkIn.order_index L else int i)"

text \<open>
  The loop of \<open>update_me\<close> over \<open>enumerate(payload.links)\<close> adds one row for each entry,
  in order, and the commit writes them in that order. The commit raises
  \<open>OverflowError\<close> at the first row whose \<open>order_index\<close> is outside the range of the
  column.
\<close>

fun add_links :: "int \<Rightarrow> nat \<Rightarrow> LinkIn list \<Rightarrow> Link list \<Rightarrow> py_exn + Link list" where
  "add_links owner i [] rows = Inr rows"
| "add_links owner i (L # Ls) rows =
     (if \<not> Integer_fits (assigned_order_index i L) then Inl OverflowError
      else
        add_links owner (Suc i) Ls
          (rows @ [\<lparr>Link.id = next_id (map Link.id rows),
                    user_id = owner,
                    title = LinkIn.title L,
                    url = LinkIn.url L,
                    icon = LinkIn.icon L,
                    order_index = assigned_order_index i L\<rparr>]))"

text \<open>
  PUT /api/me. \<open>u\<close> is the row that \<open>current_user\<close> loaded in the same session; the
  commit writes its changed attributes to the row with its key. The deletion of the old
  links, the new rows and the changed attributes belong to one transaction: when the
  commit raises, the transaction is rolled back, the database is as it was before the
  call, and the exception leaves the handler.
\<close>

definition update_me :: "database \<Rightarrow> User \<Rightarrow> UpdateProfileIn
    \<Rightarrow> (py_exn + UserPublic) \<times> database" where
  "update_me db u payload =
     (let u1 = (case UpdateProfileIn.bio payload of
                  None \<Rightarrow> u | Some b \<Rightarrow> u\<lparr>User.bio := Some b\<rparr>);
          u2 = (case UpdateProfileIn.avatar_url payload of
                  None \<Rightarrow> u1 | Some a \<Rightarrow> u1\<lparr>User.avatar_url := Some a\<rparr>);
          u3 = (case UpdateProfileIn.theme_hex payload of
                  None \<Rightarrow> u2 | Some t \<Rightarrow> u2\<lparr>User.theme_hex := Some t\<rparr>);
          written = (case UpdateProfileIn.links payload of
                       None \<Rightarrow> Inr (database.links db)
                     | Some Ls \<Rightarrow>
                         add_links (User.id u3) 0 Ls
                           (filter (\<lambda>l. Link.user_id l \<noteq> User.id u3) (database.links db)))
      in case written of
           Inl e \<Rightarrow> (Inl e, db)
         | Inr rows \<Rightarrow>
             (let db' = \<lparr>users = map (\<lambda>r. if User.id r = User.id u3 then u3 else r) (users db),
                         links = rows\<rparr>
              in (me db' u3, db')))"

text \<open>GET /api/profile/{username}.\<close>

definition public_profile :: "env \<Rightarrow> database \<Rightarrow> string \<Rightarrow> py_exn + UserPublic" where
  "public_profile env db uname =
     (case find (\<lambda>u. User.username u = lower env uname) (users db) of
        None \<Rightarrow> Inl (HTTPException 404 ''User not found'')
      | Some u \<Rightarrow>
          (case validate_all (sort_key Link.order_index (user_links db u)) of
             Inl e \<Rightarrow> Inl e
           | Inr ls \<Rightarrow>
               Inr \<lparr>UserPublic.username = User.username u,
                    bio = User.bio u,
                    avatar_url = User.avatar_url u,
                    theme_hex = User.theme_hex u,
                    links = ls\<rparr>))"

subsection \<open>A concrete instance\<close>

text \<open>
  An instance of the environment and a small database, on which the definitions are
  evaluated. \<open>ascii_lower\<close> is \<open>str.lower\<close> on ASCII text, and \<open>digits_value\<close> reads a
  string of ASCII digits. The checksum function of \<open>example_ctx\<close> is a stand-in with the
  layout of a bcrypt digest (60 characters, of which the first 29 are the scheme, the
  cost and the salt); it is not bcrypt.
\<close>

definition ascii_lower :: "string \<Rightarrow> string" where
  "ascii_lower s =
     map (\<lambda>c. if 65 \<le> (of_char c :: nat) \<and> (of_char c :: nat) \<le> 90
              then char_of ((of_char c :: nat) + 32) else c) s"

definition digits_value :: "string \<Rightarrow> int option" where
  "digits_value s =
     (if s \<noteq> [] \<and> list_all (\<lambda>c. 48 \<le> (of_char c :: nat) \<and> (of_char c :: nat) \<le> 57) s
      then Some (foldl (\<lambda>n c. 10 * n + int (of_char c - 48)) 0 s)
      else None)"

definition example_ctx :: CryptContext where
  "example_ctx =
     \<lparr>from_string = (\<lambda>h. if length h = 60 then Some (take 29 h, drop 29 h) else None),
      calc_checksum = (\<lambda>salt p. take 31 (p @ replicate 31 (CHR ''.'')))\<rparr>"

definition example_env :: env where
  "example_env =
     \<lparr>SECRET_KEY = ''change-me-in-prod'',
      pwd_ctx = example_ctx,
      lower = ascii_lower,
      int_of_str = digits_value,
      EmailStr = (\<lambda>e. if CHR ''@'' \<in> set e then Some e else None)\<rparr>"

definition alice :: User where
  "alice =
     \<lparr>User.id = 1, username = ''alice'', email = ''alice@x.com'',
      password_hash = ''$2b$12$abcdefghijklmnopqrstuvsecret1........................'',
      bio = Some ''hello'', avatar_url = None, theme_hex = Some ''#00ff88'',
      created_at = 1000\<rparr>"

definition bob :: User where
  "bob =
     \<lparr>User.id = 2, username = ''bob'', email = ''bob@x.com'',
      password_hash = ''$2b$12$ABCDEFGHIJKLMNOPQRSTUVhunter22.......................'',
      bio = Some [], avatar_url = None, theme_hex = Some ''#00ff88'',
      created_at = 1500\<rparr>"

definition example_db :: database where
  "example_db =
     \<lparr>users = [alice, bob],
      links = [\<lparr>Link.id = 1, user_id = 1, title = ''Old'', url = ''https://old.example'',
                 icon = None, order_index = 5\<rparr>,
               \<lparr>Link.id = 2, user_id = 1, title = ''Older'', url = ''https://older.example'',
                 icon = None, order_index = 5\<rparr>,
               \<lparr>Link.id = 3, user_id = 2, title = ''Bob'', url = ''https://bob.example'',
                 icon = None, order_index = 0\<rparr>,
               \<lparr>Link.id = 4, user_id = 1, title = ''First'', url = ''https://first.example'',
                 icon = None, order_index = 3\<rparr>]\<rparr>"

definition alice_view :: UserPublic where
  "alice_view =
     \<lparr>UserPublic.username = ''alice'', bio = Some ''hello'', avatar_url = None,
      theme_hex = Some ''#00ff88'',
      links = [\<lparr>LinkIn.title = ''First'', url = ''https://first.example'', icon = None,
                 order_index = 3, LinkOut.id = 4\<rparr>,
               \<lparr>LinkIn.title = ''Old'', url = ''https://old.example'', icon = None,
                 order_index = 5, LinkOut.id = 1\<rparr>,
               \<lparr>LinkIn.title = ''Older'', url = ''https://older.example'', icon = None,
                 order_index = 5, LinkOut.id = 2\<rparr>]\<rparr>"

definition new_links :: "LinkIn list" where
  "new_links =
     [\<lparr>LinkIn.title = ''Site'', url = ''https://a.com'', icon = None, order_index = - 1\<rparr>,
      \<lparr>LinkIn.title = ''Blog'', url = ''https://b.com'', icon = None, order_index = 0\<rparr>,
      \<lparr>LinkIn.title = ''Shop'', url = ''https://c.com'', icon = None, order_index = 0\<rparr>,
      \<lparr>LinkIn.title = ''Mail'', url = ''https://d.com'', icon = None, order_index = 1\<rparr>]"

definition links_update :: UpdateProfileIn where
  "links_update =
     \<lparr>UpdateProfileIn.bio = None, avatar_url = None, theme_hex = None,
      links = Some new_links\<rparr>"

text \<open>Updates with an \<open>order_index\<close> of \<open>2 ^ 63\<close>, one past the range of the column.\<close>

definition big_links :: "LinkIn list" where
  "big_links =
     [\<lparr>LinkIn.title = ''Site'', url = ''https://a.com'', icon = None, order_index = 1\<rparr>,
      \<lparr>LinkIn.title = ''Big'', url = ''https://big.com'', icon = None,
       order_index = 9223372036854775808\<rparr>]"

definition big_update :: UpdateProfileIn where
  "big_update =
     \<lparr>UpdateProfileIn.bio = Some ''changed'', avatar_url = None, theme_hex = None,
      links = Some big_links\<rparr>"

definition wide_update :: UpdateProfileIn where
  "wide_update =
     \<lparr>UpdateProfileIn.bio = None, avatar_url = None, theme_hex = None,
      links = Some [\<lparr>LinkIn.title = ''Wide'', url = ''https://wide.com'', icon = None,
                     order_index = 9223372036854775808\<rparr>]\<rparr>"

section \<open>Properties\<close>


subsection \<open>Updating a profile without links\<close>

text \<open>
  C7. When \<open>links\<close> is absent from the update, the table of links after the call is the
  table before it, so the user's links are unchanged. The user's row is written with
  \<open>bio\<close>, \<open>avatar_url\<close> and \<open>theme_hex\<close> replaced by the value sent, for each of the
  three that is present, and left as stored for each that is absent; a field sent as the
  empty string is present, and stores the empty string. Every other row is left as it was.
\<close>

theorem update_me_links_absent:
  assumes "UpdateProfileIn.links payload = None"
  shows "snd (update_me db u payload) =
           \<lparr>users =
              map (\<lambda>r. if User.id r = User.id u
                       then u\<lparr>User.bio :=
                                 (case UpdateProfileIn.bio payload of
                                    None \<Rightarrow> User.bio u | Some b \<Rightarrow> Some b),
                               User.avatar_url :=
                                 (case UpdateProfileIn.avatar_url payload of
                                    None \<Rightarrow> User.avatar_url u | Some a \<Rightarrow> Some a),
                               User.theme_hex :=
                                 (case UpdateProfileIn.theme_hex payload of
                                    None \<Rightarrow> User.theme_hex u | Some t \<Rightarrow> Some t)\<rparr>
                       else r)
                (users db),
            links = database.links db\<rparr>
         \<and> user_links (snd (update_me db u payload)) u = user_links db u"
  using assms by (simp add: update_me_def user_links_def Let_def split: option.splits)

theorem update_me_links_absent_witness:
  "snd (update_me example_db alice
          \<lparr>UpdateProfileIn.bio = Some '''', avatar_url = None,
           theme_hex = Some ''#ff0000'', links = None\<rparr>) =
     \<lparr>users = [alice\<lparr>User.bio := Some '''', User.theme_hex := Some ''#ff0000''\<rparr>, bob],
      links = database.links example_db\<rparr>"
  using update_me_links_absent
    [of "\<lparr>UpdateProfileIn.bio = Some '''', avatar_url = None,
          theme_hex = Some ''#ff0000'', links = None\<rparr>" example_db alice]
  by (simp add: example_db_def alice_def bob_def)

subsection \<open>The rows that an update inserts\<close>

text \<open>
  When every order index the call assigns fits the column, the commit appends one row
  for each entry, in order, each with the owner's key and the fields of its entry.
\<close>

lemma add_links_rows:
  assumes "list_all (\<lambda>(j, L). Integer_fits (assigned_order_index j L)) (enumerate i Ls)"
  shows "\<exists>new. add_links owner i Ls rows = Inr (rows @ new)
     \<and> list_all (\<lambda>l. Link.user_id l = owner) new
     \<and> map (\<lambda>l. LinkIn.truncate (from_attributes l)) new
         = map (\<lambda>(j, L). L\<lparr>LinkIn.order_index := assigned_order_index j L\<rparr>)
             (enumerate i Ls)"
  using assms
proof (induction Ls arbitrary: i rows)
  case Nil
  show ?case by simp
next
  case (Cons L Ls)
  define r where "r = \<lparr>Link.id = next_id (map Link.id rows), user_id = owner,
              title = LinkIn.title L, url = LinkIn.url L, icon = LinkIn.icon L,
              order_index = assigned_order_index i L\<rparr>"
  from Cons.prems have fits: "Integer_fits (assigned_order_index i L)"
    and rest: "list_all (\<lambda>(j, L). Integer_fits (assigned_order_index j L))
                 (enumerate (Suc i) Ls)"
    by simp_all
  from Cons.IH [OF rest, of "rows @ [r]"]
  obtain new where new: "add_links owner (Suc i) Ls (rows @ [r]) = Inr ((rows @ [r]) @ new)"
    "list_all (\<lambda>l. Link.user_id l = owner) new"
    "map (\<lambda>l. LinkIn.truncate (from_attributes l)) new
         = map (\<lambda>(j, L). L\<lparr>LinkIn.order_index := assigned_order_index j L\<rparr>)
             (enumerate (Suc i) Ls)"
    by blast
  have "add_links owner i (L # Ls) rows = Inr (rows @ (r # new))"
    using new(1) fits by (simp add: r_def)
  moreover have "list_all (\<lambda>l. Link.user_id l = owner) (r # new)"
    using new(2) by (simp add: r_def)
  moreover have "LinkIn.truncate (from_attributes r)
      = L\<lparr>LinkIn.order_index := assigned_order_index i L\<rparr>"
    by (simp add: r_def from_attributes_def LinkIn.truncate_def)
  ultimately show ?case
    using new(3) by (intro exI [of _ "r # new"]) simp
qed

text \<open>When one of them does not fit, the commit raises.\<close>

lemma add_links_overflow:
  assumes "\<not> list_all (\<lambda>(j, L). Integer_fits (assigned_order_index j L)) (enumerate i Ls)"
  shows "add_links owner i Ls rows = Inl OverflowError"
  using assms by (induction Ls arbitrary: i rows) auto

lemma update_me_overflow:
  assumes "UpdateProfileIn.links payload = Some Ls"
      and "\<not> list_all (\<lambda>(j, L). Integer_fits (assigned_order_index j L)) (enumerate 0 Ls)"
  shows "update_me db u payload = (Inl OverflowError, db)"
  using assms(1) add_links_overflow [OF assms(2)]
  by (simp add: update_me_def Let_def split: option.splits)

text \<open>
  After an update that carries links and is committed, the rows of the user are the
  rows the call inserted: the old rows of the user are deleted, the rows of other users
  stay where they were.
\<close>

lemma update_me_user_links:
  assumes "UpdateProfileIn.links payload = Some Ls"
      and "list_all (\<lambda>(j, L). Integer_fits (assigned_order_index j L)) (enumerate 0 Ls)"
  shows "database.links (snd (update_me db u payload))
           = filter (\<lambda>l. Link.user_id l \<noteq> User.id u) (database.links db)
             @ user_links (snd (update_me db u payload)) u"
    and "map (\<lambda>l. LinkIn.truncate (from_attributes l))
             (user_links (snd (update_me db u payload)) u)
           = map (\<lambda>(j, L). L\<lparr>LinkIn.order_index := assigned_order_index j L\<rparr>)
               (enumerate 0 Ls)"
proof -
  let ?kept = "filter (\<lambda>l. Link.user_id l \<noteq> User.id u) (database.links db)"
  obtain new where new: "add_links (User.id u) 0 Ls ?kept = Inr (?kept @ new)"
    "list_all (\<lambda>l. Link.user_id l = User.id u) new"
    "map (\<lambda>l. LinkIn.truncate (from_attributes l)) new
         = map (\<lambda>(j, L). L\<lparr>LinkIn.order_index := assigned_order_index j L\<rparr>)
             (enumerate 0 Ls)"
    using add_links_rows [OF assms(2), of "User.id u" ?kept] by blast
  have rows: "database.links (snd (update_me db u payload)) = ?kept @ new"
    using assms(1) new(1) by (simp add: update_me_def Let_def split: option.splits)
  have "filter (\<lambda>l. Link.user_id l = User.id u) new = new"
    using new(2) by (simp add: list_all_iff)
  then have ul: "user_links (snd (update_me db u payload)) u = new"
    by (simp add: user_links_def rows)
  show "database.links (snd (update_me db u payload))
           = ?kept @ user_links (snd (update_me db u payload)) u"
    by (simp add: rows ul)
  show "map (\<lambda>l. LinkIn.truncate (from_attributes l))
             (user_links (snd (update_me db u payload)) u)
           = map (\<lambda>(j, L). L\<lparr>LinkIn.order_index := assigned_order_index j L\<rparr>)
               (enumerate 0 Ls)"
    by (simp add: ul new(3))
qed

subsection \<open>The order index of a new link\<close>

text \<open>
  C2, as amended. Let an update carry links. When every order index the call assigns
  fits the 64-bit integer column of the store, the user has after the call one row for
  each entry of the sequence, in the order of the sequence, and the row at position \<open>i\<close>
  has the \<open>order_index\<close> that was sent when that is not 0 (positive or negative), and
  \<open>i\<close> when it is 0, which is also what a \<open>LinkIn\<close> without \<open>order_index\<close> holds. When
  one of them does not fit, the call raises \<open>OverflowError\<close> and the database is as it
  was: no row is stored and none is deleted.
\<close>

theorem update_me_order_index:
  assumes "UpdateProfileIn.links payload = Some Ls"
  shows "((\<forall>i < length Ls.
             Integer_fits (if LinkIn.order_index (Ls ! i) \<noteq> 0 then LinkIn.order_index (Ls ! i)
                           else int i))
          \<longrightarrow> length (user_links (snd (update_me db u payload)) u) = length Ls
              \<and> (\<forall>i < length Ls.
                    Link.order_index (user_links (snd (update_me db u payload)) u ! i)
                      = (if LinkIn.order_index (Ls ! i) \<noteq> 0 then LinkIn.order_index (Ls ! i)
                         else int i)))
       \<and> (\<not> (\<forall>i < length Ls.
             Integer_fits (if LinkIn.order_index (Ls ! i) \<noteq> 0 then LinkIn.order_index (Ls ! i)
                           else int i))
          \<longrightarrow> update_me db u payload = (Inl OverflowError, db))"
proof -
  let ?rows = "user_links (snd (update_me db u payload)) u"
  let ?f = "\<lambda>l. LinkIn.truncate (from_attributes l)"
  let ?g = "\<lambda>(j, L). L\<lparr>LinkIn.order_index := assigned_order_index j L\<rparr>"
  let ?fit = "list_all (\<lambda>(j, L). Integer_fits (assigned_order_index j L)) (enumerate 0 Ls)"
  have fit_iff: "?fit \<longleftrightarrow> (\<forall>i < length Ls.
             Integer_fits (if LinkIn.order_index (Ls ! i) \<noteq> 0 then LinkIn.order_index (Ls ! i)
                           else int i))"
    by (simp add: list_all_length nth_enumerate_eq assigned_order_index_def
          del: enumerate_eq_zip)
  have stored: "length ?rows = length Ls
      \<and> (\<forall>i < length Ls.
            Link.order_index (?rows ! i)
              = (if LinkIn.order_index (Ls ! i) \<noteq> 0 then LinkIn.order_index (Ls ! i)
                 else int i))" if fit: ?fit
  proof -
    have eq: "map ?f ?rows = map ?g (enumerate 0 Ls)"
      using update_me_user_links(2) [OF assms fit] .
    then have len: "length ?rows = length Ls"
      using length_map [of ?f ?rows] by simp
    have "Link.order_index (?rows ! i)
            = (if LinkIn.order_index (Ls ! i) \<noteq> 0 then LinkIn.order_index (Ls ! i) else int i)"
      if "i < length Ls" for i
    proof -
      have "?f (?rows ! i) = map ?f ?rows ! i"
        using that len by simp
      also have "\<dots> = map ?g (enumerate 0 Ls) ! i"
        by (simp only: eq)
      also have "\<dots> = ?g (enumerate 0 Ls ! i)"
        using that by (simp del: enumerate_eq_zip)
      finally have "?f (?rows ! i) = ?g (enumerate 0 Ls ! i)" .
      then have "LinkIn.order_index (?f (?rows ! i))
                   = LinkIn.order_index (?g (0 + i, Ls ! i))"
        using that by (simp add: nth_enumerate_eq)
      then show ?thesis
        by (simp add: from_attributes_def LinkIn.truncate_def assigned_order_index_def)
    qed
    with len show ?thesis by blast
  qed
  have failed: "update_me db u payload = (Inl OverflowError, db)" if "\<not> ?fit"
    using update_me_overflow [OF assms that] .
  from stored failed show ?thesis
    unfolding fit_iff by blast
qed

theorem update_me_order_index_witness:
  "Link.order_index (user_links (snd (update_me example_db alice links_update)) alice ! 2) = 2
   \<and> update_me example_db alice wide_update = (Inl OverflowError, example_db)"
proof -
  have l: "UpdateProfileIn.links links_update = Some new_links"
    by (simp add: links_update_def)
  have fit: "\<forall>i < length new_links.
      Integer_fits (if LinkIn.order_index (new_links ! i) \<noteq> 0
                    then LinkIn.order_index (new_links ! i) else int i)"
    by (simp add: new_links_def Integer_fits_def All_less_Suc2 numeral_eq_Suc)
  have n: "(2::nat) < length new_links" "LinkIn.order_index (new_links ! 2) = 0"
    by (simp_all add: new_links_def)
  from update_me_order_index [OF l, of example_db alice] fit n
  have 1: "Link.order_index
             (user_links (snd (update_me example_db alice links_update)) alice ! 2) = 2"
    by auto
  have w: "UpdateProfileIn.links wide_update
             = Some [\<lparr>LinkIn.title = ''Wide'', url = ''https://wide.com'', icon = None,
                      order_index = 9223372036854775808\<rparr>]"
    by (simp add: wide_update_def)
  have nofit: "\<not> (\<forall>i < length [\<lparr>LinkIn.title = ''Wide'', url = ''https://wide.com'',
                                  icon = None, order_index = 9223372036854775808\<rparr>].
      Integer_fits (if LinkIn.order_index ([\<lparr>LinkIn.title = ''Wide'', url = ''https://wide.com'',
                                  icon = None, order_index = 9223372036854775808\<rparr>] ! i) \<noteq> 0
                    then LinkIn.order_index ([\<lparr>LinkIn.title = ''Wide'',
                                  url = ''https://wide.com'',
                                  icon = None, order_index = 9223372036854775808\<rparr>] ! i)
                    else int i))"
    by (simp add: Integer_fits_def)
  from update_me_order_index [OF w, of example_db alice] nofit
  have 2: "update_me example_db alice wide_update = (Inl OverflowError, example_db)"
    by blast
  from 1 2 show ?thesis by simp
qed

text \<open>
  C2 as written fails on the code. The claim keeps positive values only, so for
  an entry sent with \<open>order_index = -1\<close> at position 0 it gives the row the position, 0;
  the code keeps \<open>-1\<close>. The two lists below are what the code stores and what the rule
  of the claim gives for the same request.
\<close>

theorem update_me_order_index_counterexample:
  "map Link.order_index (user_links (snd (update_me example_db alice links_update)) alice)
     = [- 1, 1, 2, 1]
   \<and> map (\<lambda>(i, L). if 0 < LinkIn.order_index L then LinkIn.order_index L else int i)
       (enumerate 0 new_links) = [0, 1, 2, 1]"
  by (simp add: update_me_def user_links_def example_db_def alice_def links_update_def
        new_links_def Let_def next_id_def assigned_order_index_def Integer_fits_def)

subsection \<open>Validation of a signup\<close>

text \<open>
  C10. A signup whose password has fewer than 6 characters is answered with the
  validation error, and the database is the one before the request: no row is added.
\<close>

theorem api_signup_short_password:
  assumes "length (SignupIn.password body) < 6"
  shows "api_signup env now salt db body = (Inl RequestValidationError, db)"
  using assms
  by (simp add: api_signup_def SignupIn_model_validate_def split: option.splits)

theorem api_signup_short_password_witness:
  "api_signup example_env 2000 ''$2b$12$abcdefghijklmnopqrstuv'' example_db
     \<lparr>SignupIn.username = ''carol'', email = ''carol@x.com'', password = ''12345''\<rparr>
   = (Inl RequestValidationError, example_db)"
  using api_signup_short_password
    [of "\<lparr>SignupIn.username = ''carol'', email = ''carol@x.com'', password = ''12345''\<rparr>"
        example_env 2000 "''$2b$12$abcdefghijklmnopqrstuv''" example_db]
  by simp

text \<open>With a password of 6 characters the same request is accepted and adds the row.\<close>

lemma api_signup_accepts:
  "map User.username (users (snd (api_signup example_env 2000 ''$2b$12$abcdefghijklmnopqrstuv''
     example_db \<lparr>SignupIn.username = ''Carol'', email = ''carol@x.com'', password = ''123456''\<rparr>)))
   = [''alice'', ''bob'', ''carol'']"
  by code_simp

subsection \<open>Failed logins\<close>

text \<open>
  A login whose identifier matches no row, and a login whose identifier matches a row
  but whose password is compared with the stored digest and differs, raise the same
  exception: status 401 with the detail "Invalid credentials". What \<open>verify_pw\<close> raises
  leaves \<open>login\<close> as it is.
\<close>

lemma login_rejections:
  "(login_first db (lower env (OAuth2PasswordRequestForm.username form)) = None
    \<longrightarrow> login env now db form = Inl (HTTPException 401 ''Invalid credentials''))
   \<and> (login_first db (lower env (OAuth2PasswordRequestForm.username form)) = Some user
      \<and> verify_pw env (OAuth2PasswordRequestForm.password form) (User.password_hash user)
          = Inr False
    \<longrightarrow> login env now db form = Inl (HTTPException 401 ''Invalid credentials''))
   \<and> (login_first db (lower env (OAuth2PasswordRequestForm.username form)) = Some user
      \<and> verify_pw env (OAuth2PasswordRequestForm.password form) (User.password_hash user)
          = Inl e
    \<longrightarrow> login env now db form = Inl e)"
  by (simp add: login_def)

text \<open>
  For a row with a well-formed digest and a password with a NUL character, of any
  length up to 4096, \<open>login\<close> raises \<open>PasswordValueError\<close>, whatever the context computes.
\<close>

lemma login_known_user_nul:
  assumes "login_first db (lower env (OAuth2PasswordRequestForm.username form)) = Some user"
      and "identify (User.password_hash user)"
      and "from_string (pwd_ctx env) (User.password_hash user) = Some (salt, chk)"
      and "CHR 0x00 \<in> set (OAuth2PasswordRequestForm.password form)"
      and "length (OAuth2PasswordRequestForm.password form) \<le> 4096"
  shows "login env now db form = Inl PasswordValueError"
  using assms
  by (simp add: login_def verify_pw_def CryptContext_verify_def MAX_PASSWORD_SIZE_def)

text \<open>
  C6 fails on the code. With a password that holds a NUL character, a login with the
  name of a stored user raises \<open>PasswordValueError\<close>, which is no \<open>HTTPException\<close> (the
  client gets a server fault), and a login with a name that is not stored raises the
  401 error: the two causes of failure are told apart.
\<close>

theorem login_nul_password:
  "login example_env 2000 example_db
     \<lparr>OAuth2PasswordRequestForm.username = ''alice'', password = [CHR 0x00]\<rparr>
     = Inl PasswordValueError
   \<and> login example_env 2000 example_db
     \<lparr>OAuth2PasswordRequestForm.username = ''Carol'', password = [CHR 0x00]\<rparr>
     = Inl (HTTPException 401 ''Invalid credentials'')"
  by code_simp

text \<open>
  The right password for a stored user is accepted, and a wrong one without NUL gets the
  401 error.
\<close>

lemma login_examples:
  "login example_env 2000 example_db
     \<lparr>OAuth2PasswordRequestForm.username = ''ALICE@X.COM'', password = ''secret1''\<rparr>
   = Inr \<lparr>access_token = JWS ''change-me-in-prod''
                             [(''sub'', JStr ''alice''), (''exp'', JInt 1211600)],
          token_type = ''bearer''\<rparr>"
  "login example_env 2000 example_db
     \<lparr>OAuth2PasswordRequestForm.username = ''ALICE@X.COM'', password = ''secret2''\<rparr>
   = Inl (HTTPException 401 ''Invalid credentials'')"
  by code_simp+

subsection \<open>Verifying a password\<close>

text \<open>
  C5, as amended. \<open>verify_pw\<close> hands its arguments to the context and does not catch what
  the context raises. It returns a boolean exactly when the digest has the prefix of the
  scheme and parses as a digest, and the password has at most 4096 characters and no NUL
  among them; the boolean is then true when the checksum of the password, computed under
  the settings and the salt of the digest, is the checksum of the digest, and false
  otherwise. In every other case it raises and does not return false: \<open>UnknownHashError\<close>
  on a string without the prefix of the scheme, \<open>ValueError\<close> on a string with the prefix
  that does not parse, \<open>PasswordValueError\<close> on a password it refuses.
\<close>

theorem verify_pw_result:
  "((\<exists>b. verify_pw env p hashed = Inr b)
      \<longleftrightarrow> identify hashed \<and> from_string (pwd_ctx env) hashed \<noteq> None
          \<and> length p \<le> 4096 \<and> CHR 0x00 \<notin> set p)
   \<and> (verify_pw env p hashed = Inr b
      \<longrightarrow> (\<exists>salt chk. from_string (pwd_ctx env) hashed = Some (salt, chk)
              \<and> b = (calc_checksum (pwd_ctx env) salt p = chk)))
   \<and> (\<not> identify hashed \<longrightarrow> verify_pw env p hashed = Inl UnknownHashError)
   \<and> (identify hashed \<and> length p \<le> 4096 \<and> from_string (pwd_ctx env) hashed = None
      \<longrightarrow> verify_pw env p hashed = Inl ValueError)
   \<and> (identify hashed \<and> (4096 < length p
          \<or> from_string (pwd_ctx env) hashed \<noteq> None \<and> CHR 0x00 \<in> set p)
      \<longrightarrow> verify_pw env p hashed = Inl PasswordValueError)"
  by (auto simp add: verify_pw_def CryptContext_verify_def MAX_PASSWORD_SIZE_def
        split: option.splits if_splits)

theorem verify_pw_result_witness:
  "verify_pw example_env ''secret1'' (User.password_hash alice) = Inr True
   \<and> verify_pw example_env ''secret2'' (User.password_hash alice) = Inr False
   \<and> verify_pw example_env ''secret1'' '''' = Inl UnknownHashError
   \<and> verify_pw example_env ''secret1'' ''$2b$12$short'' = Inl ValueError
   \<and> verify_pw example_env [CHR 0x00] (User.password_hash alice) = Inl PasswordValueError"
proof -
  have i: "identify (User.password_hash alice)" "identify ''$2b$12$short''"
    "\<not> identify ''''"
    by code_simp+
  have s: "from_string (pwd_ctx example_env) (User.password_hash alice)
             = Some (''$2b$12$abcdefghijklmnopqrstuv'', ''secret1........................'')"
    by code_simp
  have m: "from_string (pwd_ctx example_env) ''$2b$12$short'' = None"
    by code_simp
  have c1: "calc_checksum (pwd_ctx example_env) ''$2b$12$abcdefghijklmnopqrstuv'' ''secret1''
              = ''secret1........................''"
    by code_simp
  have c2: "calc_checksum (pwd_ctx example_env) ''$2b$12$abcdefghijklmnopqrstuv'' ''secret2''
              \<noteq> ''secret1........................''"
    by code_simp
  have len: "length ''secret1'' \<le> 4096" "length ''secret2'' \<le> 4096"
    "length [CHR 0x00] \<le> 4096"
    by simp_all
  have nul: "CHR 0x00 \<notin> set ''secret1''" "CHR 0x00 \<notin> set ''secret2''"
    "CHR 0x00 \<in> set [CHR 0x00]"
    by simp_all
  obtain b1 where b1: "verify_pw example_env ''secret1'' (User.password_hash alice) = Inr b1"
    using verify_pw_result [where env = example_env and p = "''secret1''"
        and hashed = "User.password_hash alice"] i(1) s len(1) nul(1)
    by auto
  obtain b2 where b2: "verify_pw example_env ''secret2'' (User.password_hash alice) = Inr b2"
    using verify_pw_result [where env = example_env and p = "''secret2''"
        and hashed = "User.password_hash alice"] i(1) s len(2) nul(2)
    by auto
  from verify_pw_result [where env = example_env and p = "''secret1''"
        and hashed = "User.password_hash alice" and b = b1] b1 s c1
  have 1: "verify_pw example_env ''secret1'' (User.password_hash alice) = Inr True"
    by auto
  from verify_pw_result [where env = example_env and p = "''secret2''"
        and hashed = "User.password_hash alice" and b = b2] b2 s c2
  have 2: "verify_pw example_env ''secret2'' (User.password_hash alice) = Inr False"
    by auto
  from verify_pw_result [where env = example_env and p = "''secret1''" and hashed = "''''"]
    i(3)
  have 3: "verify_pw example_env ''secret1'' '''' = Inl UnknownHashError"
    by blast
  from verify_pw_result [where env = example_env and p = "''secret1''"
        and hashed = "''$2b$12$short''"] i(2) m len(1)
  have 4: "verify_pw example_env ''secret1'' ''$2b$12$short'' = Inl ValueError"
    by blast
  from verify_pw_result [where env = example_env and p = "[CHR 0x00]"
        and hashed = "User.password_hash alice"] i(1) s nul(3)
  have 5: "verify_pw example_env [CHR 0x00] (User.password_hash alice)
             = Inl PasswordValueError"
    by auto
  from 1 2 3 4 5 show ?thesis by simp
qed

text \<open>
  C5 as written fails on the code: on a string that is no digest, \<open>verify_pw\<close>
  raises.
\<close>

theorem verify_pw_counterexample:
  "verify_pw example_env ''secret1'' ''not-a-digest'' = Inl UnknownHashError"
  by code_simp

text \<open>
  A digest that \<open>hash_pw\<close> returns verifies with the password it was made from, in a
  context whose parser reads back what \<open>hash\<close> writes.
\<close>

lemma hash_pw_verifies:
  assumes "hash_pw env salt p = Inr hashed"
      and "identify hashed"
      and "from_string (pwd_ctx env) hashed = Some (salt, calc_checksum (pwd_ctx env) salt p)"
  shows "verify_pw env p hashed = Inr True"
  using assms
  by (auto simp add: hash_pw_def verify_pw_def CryptContext_hash_def CryptContext_verify_def
        split: if_splits)

subsection \<open>Issued tokens\<close>



subsection \<open>Resolving a session\<close>

text \<open>
  A token that is not signed with \<open>SECRET_KEY\<close> gets the typed error, whatever it is.
\<close>

lemma current_user_unsigned:
  assumes "\<And>payload. tok \<noteq> JWS (SECRET_KEY env) payload"
  shows "current_user env now db tok = Inl (HTTPException 401 ''Invalid token'')"
  using assms
  by (cases tok) (auto simp add: current_user_def jwt_decode_def is_JWTError_def)

text \<open>
  C3 fails on the code at a token that is signed with \<open>SECRET_KEY\<close> and has no \<open>sub\<close>
  claim: \<open>jwt.decode\<close> accepts it, \<open>payload.get("sub")\<close> is \<open>None\<close>, and
  \<open>username.lower()\<close> raises \<open>AttributeError\<close>, which is no \<open>HTTPException\<close>.
\<close>

theorem current_user_no_sub:
  "current_user env now db (JWS (SECRET_KEY env) []) = Inl AttributeError"
  by (simp add: current_user_def jwt_decode_def validate_claims_def validate_iat_def
        validate_nbf_def validate_exp_def validate_aud_def validate_sub_def validate_jti_def
        validate_at_hash_def)

text \<open>
  A signed token whose \<open>exp\<close> is \<open>null\<close> raises \<open>TypeError\<close> in \<open>jwt.decode\<close>, which the
  handler of \<open>current_user\<close> does not catch either.
\<close>

lemma current_user_exp_null:
  "current_user env now db (JWS (SECRET_KEY env) [(''sub'', JStr s), (''exp'', JNull)])
     = Inl TypeError"
  by (simp add: current_user_def jwt_decode_def validate_claims_def validate_iat_def
        validate_nbf_def validate_exp_def int_claim_def is_JWTError_def)

subsection \<open>Building the links of a view\<close>

lemma validate_all_Inr:
  "validate_all ls = Inr outs \<Longrightarrow> outs = map from_attributes ls"
  by (induction ls arbitrary: outs)
     (auto simp add: LinkOut_model_validate_def split: sum.splits if_splits)

lemma validate_all_fits:
  "list_all (\<lambda>l. length (Link.title l) \<le> 100) ls
     \<Longrightarrow> validate_all ls = Inr (map from_attributes ls)"
  by (induction ls) (auto simp add: LinkOut_model_validate_def)

lemma me_links:
  assumes "me db u = Inr v"
  shows "UserPublic.links v
           = map from_attributes (sort_key Link.order_index (user_links db u))"
proof -
  from assms obtain outs
    where outs: "validate_all (sort_key Link.order_index (user_links db u)) = Inr outs"
      and v: "UserPublic.links v = outs"
    by (auto simp add: me_def split: sum.splits)
  from validate_all_Inr [OF outs] v show ?thesis by simp
qed

lemma public_profile_links:
  assumes "public_profile env db uname = Inr w"
  shows "\<exists>u. find (\<lambda>r. User.username r = lower env uname) (users db) = Some u
             \<and> UserPublic.links w
                 = map from_attributes (sort_key Link.order_index (user_links db u))"
proof -
  from assms obtain u outs
    where u: "find (\<lambda>r. User.username r = lower env uname) (users db) = Some u"
      and outs: "validate_all (sort_key Link.order_index (user_links db u)) = Inr outs"
      and w: "UserPublic.links w = outs"
    by (auto simp add: public_profile_def split: option.splits sum.splits)
  from validate_all_Inr [OF outs] u w show ?thesis by simp
qed

lemma rendered_sorted:
  "sorted (map LinkIn.order_index (map from_attributes (sort_key Link.order_index rows)))"
proof -
  have "map LinkIn.order_index (map from_attributes (sort_key Link.order_index rows))
          = map Link.order_index (sort_key Link.order_index rows)"
    by (simp add: from_attributes_def)
  then show ?thesis by (simp only: sorted_sort_key)
qed

lemma rendered_stable:
  "filter (\<lambda>out. LinkIn.order_index out = k)
       (map from_attributes (sort_key Link.order_index rows))
     = map from_attributes (filter (\<lambda>l. Link.order_index l = k) rows)"
proof -
  have "filter (\<lambda>out. LinkIn.order_index out = k)
            (map from_attributes (sort_key Link.order_index rows))
          = map from_attributes
              (filter (\<lambda>l. Link.order_index l = k) (sort_key Link.order_index rows))"
    by (simp add: filter_map comp_def from_attributes_def)
  then show ?thesis by (simp only: sort_key_stable)
qed

subsection \<open>The order of the links in a profile\<close>

text \<open>
  C8. In the view that \<open>me\<close> returns and in the view that \<open>public_profile\<close> returns, the
  links are in ascending order of \<open>order_index\<close>, and for every value of \<open>order_index\<close>
  the links with that value stand in the order in which their rows are stored, which is
  the order of their insertion. Both handlers return a view when the stored titles fit
  the bound of \<open>LinkOut\<close>.
\<close>

theorem profile_links_sorted:
  "(me db u = Inr v \<longrightarrow>
      sorted (map LinkIn.order_index (UserPublic.links v))
      \<and> (\<forall>k. filter (\<lambda>out. LinkIn.order_index out = k) (UserPublic.links v)
             = map from_attributes
                 (filter (\<lambda>l. Link.order_index l = k) (user_links db u))))
   \<and> (public_profile env db uname = Inr w \<longrightarrow>
      sorted (map LinkIn.order_index (UserPublic.links w))
      \<and> (\<exists>r. find (\<lambda>r. User.username r = lower env uname) (users db) = Some r
           \<and> (\<forall>k. filter (\<lambda>out. LinkIn.order_index out = k) (UserPublic.links w)
                  = map from_attributes
                      (filter (\<lambda>l. Link.order_index l = k) (user_links db r)))))
   \<and> (list_all (\<lambda>l. length (Link.title l) \<le> 100) (user_links db u)
        \<longrightarrow> (\<exists>v. me db u = Inr v))"
proof (intro conjI impI)
  assume "me db u = Inr v"
  then have l: "UserPublic.links v
      = map from_attributes (sort_key Link.order_index (user_links db u))"
    by (rule me_links)
  show "sorted (map LinkIn.order_index (UserPublic.links v))"
    unfolding l by (rule rendered_sorted)
  show "\<forall>k. filter (\<lambda>out. LinkIn.order_index out = k) (UserPublic.links v)
             = map from_attributes
                 (filter (\<lambda>l. Link.order_index l = k) (user_links db u))"
    unfolding l by (simp add: rendered_stable)
next
  assume "public_profile env db uname = Inr w"
  from public_profile_links [OF this] obtain r
    where r: "find (\<lambda>r. User.username r = lower env uname) (users db) = Some r"
      and l: "UserPublic.links w
                = map from_attributes (sort_key Link.order_index (user_links db r))"
    by blast
  show "sorted (map LinkIn.order_index (UserPublic.links w))"
    unfolding l by (rule rendered_sorted)
  show "\<exists>r. find (\<lambda>r. User.username r = lower env uname) (users db) = Some r
           \<and> (\<forall>k. filter (\<lambda>out. LinkIn.order_index out = k) (UserPublic.links w)
                  = map from_attributes
                      (filter (\<lambda>l. Link.order_index l = k) (user_links db r)))"
    using r unfolding l by (simp add: rendered_stable)
next
  assume "list_all (\<lambda>l. length (Link.title l) \<le> 100) (user_links db u)"
  then have "list_all (\<lambda>l. length (Link.title l) \<le> 100)
               (sort_key Link.order_index (user_links db u))"
    by (simp add: list_all_iff)
  from validate_all_fits [OF this] show "\<exists>v. me db u = Inr v"
    by (simp add: me_def)
qed

theorem profile_links_sorted_witness:
  "me example_db alice = Inr alice_view
   \<and> public_profile example_env example_db ''Alice'' = Inr alice_view
   \<and> sorted (map LinkIn.order_index (UserPublic.links alice_view))
   \<and> filter (\<lambda>out. LinkIn.order_index out = 5) (UserPublic.links alice_view)
       = map from_attributes
           (filter (\<lambda>l. Link.order_index l = 5) (user_links example_db alice))"
proof -
  have m: "me example_db alice = Inr alice_view"
    by code_simp
  have p: "public_profile example_env example_db ''Alice'' = Inr alice_view"
    by code_simp
  from profile_links_sorted
         [where db = example_db and u = alice and v = alice_view and env = example_env
            and uname = "''Alice''" and w = alice_view] m p
  show ?thesis by blast
qed

subsection \<open>Keys follow the order of insertion\<close>

lemma next_id_greater: "i \<in> set ids \<Longrightarrow> i < next_id ids"
proof -
  assume "i \<in> set ids"
  then have "i \<le> Max (set (0 # ids))" by simp
  also have "Max (set (0 # ids)) = fold max ids 0" by (rule Max.set_eq_fold)
  finally show ?thesis by (simp add: next_id_def)
qed

lemma add_links_ids_ascending:
  "sorted_wrt (<) (map Link.id rows) \<Longrightarrow> add_links owner i Ls rows = Inr rows'
     \<Longrightarrow> sorted_wrt (<) (map Link.id rows')"
proof (induction Ls arbitrary: i rows)
  case Nil
  then show ?case by simp
next
  case (Cons L Ls)
  let ?r = "\<lparr>Link.id = next_id (map Link.id rows), user_id = owner,
              title = LinkIn.title L, url = LinkIn.url L, icon = LinkIn.icon L,
              order_index = assigned_order_index i L\<rparr>"
  have "sorted_wrt (<) (map Link.id (rows @ [?r]))"
    using Cons.prems(1) by (auto simp add: sorted_wrt_append next_id_greater)
  moreover have "add_links owner (Suc i) Ls (rows @ [?r]) = Inr rows'"
    using Cons.prems(2) by (simp split: if_splits)
  ultimately show ?case by (rule Cons.IH)
qed

lemma update_me_ids_ascending:
  assumes "sorted_wrt (<) (map Link.id (database.links db))"
  shows "sorted_wrt (<) (map Link.id (database.links (snd (update_me db u payload))))"
proof (cases "UpdateProfileIn.links payload")
  case None
  with assms show ?thesis by (simp add: update_me_def Let_def)
next
  case (Some Ls)
  let ?kept = "filter (\<lambda>l. Link.user_id l \<noteq> User.id u) (database.links db)"
  have kept: "sorted_wrt (<) (map Link.id ?kept)"
    using assms by (simp add: sorted_wrt_map sorted_wrt_filter)
  show ?thesis
  proof (cases "add_links (User.id u) 0 Ls ?kept")
    case (Inl e)
    with Some assms show ?thesis
      by (simp add: update_me_def Let_def split: option.splits)
  next
    case (Inr rows')
    from add_links_ids_ascending [OF kept Inr] Some Inr show ?thesis
      by (simp add: update_me_def Let_def split: option.splits)
  qed
qed

lemma ties_in_id_order:
  assumes "me db u = Inr v" and "sorted_wrt (<) (map Link.id (database.links db))"
  shows "sorted_wrt (<) (map LinkOut.id
           (filter (\<lambda>out. LinkIn.order_index out = k) (UserPublic.links v)))"
proof -
  have "filter (\<lambda>out. LinkIn.order_index out = k) (UserPublic.links v)
          = map from_attributes (filter (\<lambda>l. Link.order_index l = k) (user_links db u))"
    using me_links [OF assms(1)] by (simp add: rendered_stable)
  moreover have "sorted_wrt (<) (map Link.id
      (filter (\<lambda>l. Link.order_index l = k) (user_links db u)))"
    using assms(2) by (simp add: user_links_def sorted_wrt_map sorted_wrt_filter)
  ultimately show ?thesis
    by (simp add: comp_def from_attributes_def)
qed

subsection \<open>The owner's view and the public view\<close>

lemma find_by_unique_key:
  "distinct (map f xs) \<Longrightarrow> x \<in> set xs \<Longrightarrow> find (\<lambda>y. f y = f x) xs = Some x"
  by (induction xs) (auto simp add: image_iff)

lemma current_user_stored:
  "current_user env now db tok = Inr u \<Longrightarrow> u \<in> set (users db)"
  by (auto simp add: current_user_def find_Some_iff
        split: sum.splits option.splits json.splits if_splits)

text \<open>
  C9. For a user stored in a table whose usernames are unique and each the lower-case form
  of itself, which is how \<open>signup\<close> stores them, the public profile looked up by the
  user's name is the result of \<open>me\<close> for that user: the same view with the same five
  fields, or the same exception.
\<close>

theorem public_profile_is_me:
  assumes "u \<in> set (users db)"
      and "distinct (map User.username (users db))"
      and "lower env (User.username u) = User.username u"
  shows "public_profile env db (User.username u) = me db u"
proof -
  have "find (\<lambda>r. User.username r = User.username u) (users db) = Some u"
    using assms(2) assms(1) by (rule find_by_unique_key)
  then show ?thesis
    by (simp add: public_profile_def me_def assms(3))
qed

theorem public_profile_is_me_witness:
  "public_profile example_env example_db (User.username alice) = me example_db alice"
proof -
  have 1: "alice \<in> set (users example_db)"
    by (simp add: example_db_def)
  have 2: "distinct (map User.username (users example_db))"
    by code_simp
  have 3: "lower example_env (User.username alice) = User.username alice"
    by code_simp
  from public_profile_is_me [OF 1 2 3] show ?thesis .
qed

subsection \<open>Stored usernames\<close>

text \<open>
  \<open>signup\<close> keeps the usernames of the table unique and in lower case, given that
  lowering a lowered string changes nothing.
\<close>

lemma signup_keeps_usernames:
  assumes "distinct (map User.username (users db))"
      and "\<forall>r \<in> set (users db). lower env (User.username r) = User.username r"
      and "\<And>s. lower env (lower env s) = lower env s"
  shows "distinct (map User.username (users (snd (signup env now salt db data))))
         \<and> (\<forall>r \<in> set (users (snd (signup env now salt db data))).
               lower env (User.username r) = User.username r)"
  using assms
  by (auto simp add: signup_def Let_def find_None_iff split: sum.splits)

subsection \<open>Replacing the links\<close>

lemma insort_key_map:
  "(\<And>y. k' (f y) = k y)
     \<Longrightarrow> map f (insort_key k x xs) = insort_key k' (f x) (map f xs)"
  by (induction xs) simp_all

lemma sort_key_map:
  "(\<And>y. k' (f y) = k y) \<Longrightarrow> map f (sort_key k xs) = sort_key k' (map f xs)"
proof (induction xs)
  case Nil
  show ?case by simp
next
  case (Cons a xs)
  have "map f (insort_key k a (sort_key k xs))
          = insort_key k' (f a) (map f (sort_key k xs))"
    by (rule insort_key_map) (rule Cons.prems)
  with Cons.IH [OF Cons.prems] show ?case by simp
qed

lemma find_updated_row:
  assumes "u \<in> set xs"
      and "distinct (map User.username xs)"
      and "User.username u' = User.username u"
  shows "find (\<lambda>r. User.username r = User.username u)
           (map (\<lambda>r. if User.id r = User.id u then u' else r) xs) = Some u'"
  using assms(1,2)
proof (induction xs)
  case Nil
  then show ?case by simp
next
  case (Cons r xs)
  show ?case
  proof (cases "User.id r = User.id u")
    case True
    then show ?thesis by (simp add: assms(3))
  next
    case False
    then have ne: "r \<noteq> u" by auto
    with Cons.prems have in_tl: "u \<in> set xs" by simp
    then have "User.username r \<noteq> User.username u"
      using Cons.prems(2) by (auto simp add: image_iff)
    moreover have "find (\<lambda>r. User.username r = User.username u)
           (map (\<lambda>r. if User.id r = User.id u then u' else r) xs) = Some u'"
      using Cons.IH in_tl Cons.prems(2) by simp
    ultimately show ?thesis using False by simp
  qed
qed

text \<open>What a committed update returns and writes.\<close>

lemma update_me_committed:
  assumes "UpdateProfileIn.links payload = Some Ls"
      and "list_all (\<lambda>(j, L). Integer_fits (assigned_order_index j L)) (enumerate 0 Ls)"
  shows "fst (update_me db u payload) = me (snd (update_me db u payload))
       (u\<lparr>User.bio := (case UpdateProfileIn.bio payload of
                          None \<Rightarrow> User.bio u | Some b \<Rightarrow> Some b),
          User.avatar_url := (case UpdateProfileIn.avatar_url payload of
                          None \<Rightarrow> User.avatar_url u | Some a \<Rightarrow> Some a),
          User.theme_hex := (case UpdateProfileIn.theme_hex payload of
                          None \<Rightarrow> User.theme_hex u | Some t \<Rightarrow> Some t)\<rparr>)"
    and "users (snd (update_me db u payload))
     = map (\<lambda>r. if User.id r = User.id u
                then u\<lparr>User.bio := (case UpdateProfileIn.bio payload of
                          None \<Rightarrow> User.bio u | Some b \<Rightarrow> Some b),
                       User.avatar_url := (case UpdateProfileIn.avatar_url payload of
                          None \<Rightarrow> User.avatar_url u | Some a \<Rightarrow> Some a),
                       User.theme_hex := (case UpdateProfileIn.theme_hex payload of
                          None \<Rightarrow> User.theme_hex u | Some t \<Rightarrow> Some t)\<rparr>
                else r) (users db)"
proof -
  let ?kept = "filter (\<lambda>l. Link.user_id l \<noteq> User.id u) (database.links db)"
  obtain new where new: "add_links (User.id u) 0 Ls ?kept = Inr (?kept @ new)"
    using add_links_rows [OF assms(2), of "User.id u" ?kept] by blast
  show "fst (update_me db u payload) = me (snd (update_me db u payload))
       (u\<lparr>User.bio := (case UpdateProfileIn.bio payload of
                          None \<Rightarrow> User.bio u | Some b \<Rightarrow> Some b),
          User.avatar_url := (case UpdateProfileIn.avatar_url payload of
                          None \<Rightarrow> User.avatar_url u | Some a \<Rightarrow> Some a),
          User.theme_hex := (case UpdateProfileIn.theme_hex payload of
                          None \<Rightarrow> User.theme_hex u | Some t \<Rightarrow> Some t)\<rparr>)"
    using assms(1) new by (simp add: update_me_def Let_def split: option.splits)
  show "users (snd (update_me db u payload))
     = map (\<lambda>r. if User.id r = User.id u
                then u\<lparr>User.bio := (case UpdateProfileIn.bio payload of
                          None \<Rightarrow> User.bio u | Some b \<Rightarrow> Some b),
                       User.avatar_url := (case UpdateProfileIn.avatar_url payload of
                          None \<Rightarrow> User.avatar_url u | Some a \<Rightarrow> Some a),
                       User.theme_hex := (case UpdateProfileIn.theme_hex payload of
                          None \<Rightarrow> User.theme_hex u | Some t \<Rightarrow> Some t)\<rparr>
                else r) (users db)"
    using assms(1) new by (simp add: update_me_def Let_def split: option.splits)
qed

text \<open>
  C1, as amended. Let an update carry links, with titles within the bound of
  \<open>LinkIn\<close>, for a user stored in a table whose usernames are unique and in lower case.
  When every order index the call assigns fits the 64-bit integer column of the store,
  the links table holds after the call the rows of the other users as before, followed
  by the rows of this user, which are the rows the call inserted. The public profile of
  the user is then returned, it is the view the update itself returned, and its links
  are, field by field (\<open>title\<close>, \<open>url\<close>, \<open>icon\<close>, \<open>order_index\<close>), the entries of the
  request with the order index each was given, sorted by that index: as many as were
  sent, and none of the rows stored before. When an assigned order index does not fit,
  the call raises \<open>OverflowError\<close> and the database is as it was before the call.
\<close>

theorem update_me_replaces_links:
  assumes "UpdateProfileIn.links payload = Some Ls"
      and "UpdateProfileIn_valid payload"
      and "u \<in> set (users db)"
      and "distinct (map User.username (users db))"
      and "lower env (User.username u) = User.username u"
  shows "((\<forall>i < length Ls.
             Integer_fits (if LinkIn.order_index (Ls ! i) \<noteq> 0 then LinkIn.order_index (Ls ! i)
                           else int i))
          \<longrightarrow> (\<exists>v. public_profile env (snd (update_me db u payload)) (User.username u) = Inr v
                \<and> fst (update_me db u payload) = Inr v
                \<and> map LinkIn.truncate (UserPublic.links v)
                    = sort_key LinkIn.order_index
                        (map (\<lambda>(i, L). L\<lparr>LinkIn.order_index :=
                                (if LinkIn.order_index L \<noteq> 0 then LinkIn.order_index L
                                 else int i)\<rparr>)
                           (enumerate 0 Ls))
                \<and> database.links (snd (update_me db u payload))
                    = filter (\<lambda>l. Link.user_id l \<noteq> User.id u) (database.links db)
                      @ user_links (snd (update_me db u payload)) u))
       \<and> (\<not> (\<forall>i < length Ls.
             Integer_fits (if LinkIn.order_index (Ls ! i) \<noteq> 0 then LinkIn.order_index (Ls ! i)
                           else int i))
          \<longrightarrow> update_me db u payload = (Inl OverflowError, db))"
proof -
  let ?db' = "snd (update_me db u payload)"
  let ?u' = "u\<lparr>User.bio := (case UpdateProfileIn.bio payload of
                          None \<Rightarrow> User.bio u | Some b \<Rightarrow> Some b),
          User.avatar_url := (case UpdateProfileIn.avatar_url payload of
                          None \<Rightarrow> User.avatar_url u | Some a \<Rightarrow> Some a),
          User.theme_hex := (case UpdateProfileIn.theme_hex payload of
                          None \<Rightarrow> User.theme_hex u | Some t \<Rightarrow> Some t)\<rparr>"
  let ?f = "\<lambda>l. LinkIn.truncate (from_attributes l)"
  let ?g = "\<lambda>(j, L). L\<lparr>LinkIn.order_index := assigned_order_index j L\<rparr>"
  let ?rows = "user_links ?db' u"
  let ?fit = "list_all (\<lambda>(j, L). Integer_fits (assigned_order_index j L)) (enumerate 0 Ls)"
  have fit_iff: "?fit \<longleftrightarrow> (\<forall>i < length Ls.
             Integer_fits (if LinkIn.order_index (Ls ! i) \<noteq> 0 then LinkIn.order_index (Ls ! i)
                           else int i))"
    by (simp add: list_all_length nth_enumerate_eq assigned_order_index_def
          del: enumerate_eq_zip)
  have g_eq: "?g = (\<lambda>(i, L). L\<lparr>LinkIn.order_index :=
                                (if LinkIn.order_index L \<noteq> 0 then LinkIn.order_index L
                                 else int i)\<rparr>)"
    by (simp add: assigned_order_index_def)
  have committed: "\<exists>v. public_profile env ?db' (User.username u) = Inr v
                \<and> fst (update_me db u payload) = Inr v
                \<and> map LinkIn.truncate (UserPublic.links v)
                    = sort_key LinkIn.order_index (map ?g (enumerate 0 Ls))
                \<and> database.links ?db'
                    = filter (\<lambda>l. Link.user_id l \<noteq> User.id u) (database.links db) @ ?rows"
    if fit: ?fit
  proof -
    have same_rows: "user_links ?db' ?u' = ?rows"
      by (simp add: user_links_def)
    have rows: "map ?f ?rows = map ?g (enumerate 0 Ls)"
      using update_me_user_links(2) [OF assms(1) fit] .
    have table: "database.links ?db'
        = filter (\<lambda>l. Link.user_id l \<noteq> User.id u) (database.links db) @ ?rows"
      using update_me_user_links(1) [OF assms(1) fit] .
    have "map Link.title ?rows = map LinkIn.title (map ?f ?rows)"
      by (simp add: from_attributes_def LinkIn.truncate_def)
    also have "\<dots> = map LinkIn.title (map ?g (enumerate 0 Ls))"
      by (simp only: rows)
    also have "\<dots> = map LinkIn.title Ls"
    proof -
      have "map LinkIn.title (map ?g (enumerate n Ls)) = map LinkIn.title Ls" for n
        by (induction Ls arbitrary: n) simp_all
      then show ?thesis .
    qed
    finally have titles: "map Link.title ?rows = map LinkIn.title Ls" .
    have "list_all (\<lambda>t. length t \<le> 100) (map LinkIn.title Ls)"
      using assms(1,2) by (simp add: UpdateProfileIn_valid_def LinkIn_valid_def list_all_iff)
    then have "list_all (\<lambda>t. length t \<le> 100) (map Link.title ?rows)"
      by (simp only: titles)
    then have "list_all (\<lambda>l. length (Link.title l) \<le> 100)
                 (sort_key Link.order_index ?rows)"
      by (simp add: list_all_iff)
    from validate_all_fits [OF this]
    have fits: "validate_all (sort_key Link.order_index ?rows)
                  = Inr (map from_attributes (sort_key Link.order_index ?rows))" .
    define v where "v = \<lparr>UserPublic.username = User.username u,
                          bio = User.bio ?u', avatar_url = User.avatar_url ?u',
                          theme_hex = User.theme_hex ?u',
                          links = map from_attributes (sort_key Link.order_index ?rows)\<rparr>"
    have me: "me ?db' ?u' = Inr v"
      by (simp add: me_def same_rows fits v_def)
    have "find (\<lambda>r. User.username r = User.username u) (users ?db') = Some ?u'"
      unfolding update_me_committed(2) [OF assms(1) fit]
      by (rule find_updated_row [OF assms(3) assms(4)]) simp
    then have pub: "public_profile env ?db' (User.username u) = Inr v"
      by (simp add: public_profile_def assms(5) same_rows fits v_def)
    have ret: "fst (update_me db u payload) = Inr v"
      using update_me_committed(1) [OF assms(1) fit, of db u] me by simp
    have "map LinkIn.truncate (UserPublic.links v)
            = map ?f (sort_key Link.order_index ?rows)"
      by (simp add: v_def)
    also have "\<dots> = sort_key LinkIn.order_index (map ?f ?rows)"
      by (rule sort_key_map) (simp add: from_attributes_def LinkIn.truncate_def)
    finally have "map LinkIn.truncate (UserPublic.links v)
                    = sort_key LinkIn.order_index (map ?g (enumerate 0 Ls))"
      by (simp only: rows)
    with pub ret table show ?thesis by blast
  qed
  have failed: "update_me db u payload = (Inl OverflowError, db)" if "\<not> ?fit"
    using update_me_overflow [OF assms(1) that] .
  from committed failed show ?thesis
    unfolding fit_iff g_eq by blast
qed

theorem update_me_replaces_links_witness:
  "(\<exists>v. public_profile example_env (snd (update_me example_db alice links_update))
          (User.username alice) = Inr v
       \<and> fst (update_me example_db alice links_update) = Inr v
       \<and> map LinkIn.truncate (UserPublic.links v)
           = sort_key LinkIn.order_index
               (map (\<lambda>(i, L). L\<lparr>LinkIn.order_index :=
                       (if LinkIn.order_index L \<noteq> 0 then LinkIn.order_index L
                        else int i)\<rparr>)
                  (enumerate 0 new_links))
       \<and> database.links (snd (update_me example_db alice links_update))
           = filter (\<lambda>l. Link.user_id l \<noteq> User.id alice) (database.links example_db)
             @ user_links (snd (update_me example_db alice links_update)) alice)
   \<and> update_me example_db alice big_update = (Inl OverflowError, example_db)"
proof -
  have 0: "UpdateProfileIn.links links_update = Some new_links"
    by (simp add: links_update_def)
  have 1: "UpdateProfileIn_valid links_update"
    by code_simp
  have 2: "alice \<in> set (users example_db)"
    by (simp add: example_db_def)
  have 3: "distinct (map User.username (users example_db))"
    by code_simp
  have 4: "lower example_env (User.username alice) = User.username alice"
    by code_simp
  have fit: "\<forall>i < length new_links.
      Integer_fits (if LinkIn.order_index (new_links ! i) \<noteq> 0
                    then LinkIn.order_index (new_links ! i) else int i)"
    by (simp add: new_links_def Integer_fits_def All_less_Suc2 numeral_eq_Suc)
  have b0: "UpdateProfileIn.links big_update = Some big_links"
    by (simp add: big_update_def)
  have b1: "UpdateProfileIn_valid big_update"
    by code_simp
  have "\<not> Integer_fits (if LinkIn.order_index (big_links ! 1) \<noteq> 0
                    then LinkIn.order_index (big_links ! 1) else int 1)"
    by (simp add: big_links_def Integer_fits_def)
  moreover have "(1::nat) < length big_links"
    by (simp add: big_links_def)
  ultimately have nofit: "\<not> (\<forall>i < length big_links.
      Integer_fits (if LinkIn.order_index (big_links ! i) \<noteq> 0
                    then LinkIn.order_index (big_links ! i) else int i))"
    by blast
  from update_me_replaces_links [OF 0 1 2 3 4] fit
  have A: "\<exists>v. public_profile example_env (snd (update_me example_db alice links_update))
          (User.username alice) = Inr v
       \<and> fst (update_me example_db alice links_update) = Inr v
       \<and> map LinkIn.truncate (UserPublic.links v)
           = sort_key LinkIn.order_index
               (map (\<lambda>(i, L). L\<lparr>LinkIn.order_index :=
                       (if LinkIn.order_index L \<noteq> 0 then LinkIn.order_index L
                        else int i)\<rparr>)
                  (enumerate 0 new_links))
       \<and> database.links (snd (update_me example_db alice links_update))
           = filter (\<lambda>l. Link.user_id l \<noteq> User.id alice) (database.links example_db)
             @ user_links (snd (update_me example_db alice links_update)) alice"
    by blast
  from update_me_replaces_links [OF b0 b1 2 3 4] nofit
  have B: "update_me example_db alice big_update = (Inl OverflowError, example_db)"
    by blast
  from A B show ?thesis by blast
qed

text \<open>
  C1 as written fails on the code. An update that carries links, one of them with the
  order index \<open>2 ^ 63\<close>, raises \<open>OverflowError\<close> at the commit: nothing of the request is
  stored, and the public profile after the call still shows the three links stored
  before it.
\<close>

theorem update_me_replaces_links_counterexample:
  "update_me example_db alice big_update = (Inl OverflowError, example_db)
   \<and> public_profile example_env (snd (update_me example_db alice big_update)) ''alice''
       = Inr alice_view"
  by code_simp

text \<open>
  On the example: the profile of alice after the update that is committed holds the four
  entries she sent, and none of her three earlier links. The key 4 of an earlier row is
  in use again.
\<close>

lemma public_profile_after_update:
  "public_profile example_env (snd (update_me example_db alice links_update)) ''alice''
     = Inr \<lparr>UserPublic.username = ''alice'', bio = Some ''hello'', avatar_url = None,
            theme_hex = Some ''#00ff88'',
            links = [\<lparr>LinkIn.title = ''Site'', url = ''https://a.com'', icon = None,
                       order_index = - 1, LinkOut.id = 4\<rparr>,
                     \<lparr>LinkIn.title = ''Blog'', url = ''https://b.com'', icon = None,
                       order_index = 1, LinkOut.id = 5\<rparr>,
                     \<lparr>LinkIn.title = ''Mail'', url = ''https://d.com'', icon = None,
                       order_index = 1, LinkOut.id = 7\<rparr>,
                     \<lparr>LinkIn.title = ''Shop'', url = ''https://c.com'', icon = None,
                       order_index = 2, LinkOut.id = 6\<rparr>]\<rparr>"
  by code_simp

end
